theory Spec2Isabelle
  imports Main
begin

section \<open>Python strings\<close>

text \<open>
  A Python \<open>str\<close> is a sequence of Unicode code points; the script's date
  pattern names one code point beyond ASCII (the en dash, U+2013), so a string is a list
  of code points and \<open>py\<close> writes an ASCII literal.
\<close>

type_synonym pystr = "nat list"

definition py :: "string \<Rightarrow> pystr" where
  "py s = map of_char s"

text \<open>
  The interpreter's Unicode tables are not part of the repository. The script reaches
  them through \<open>str.lower\<close>, \<open>str.strip\<close> and the classes
  \<open>\s\<close>, \<open>\d\<close>, \<open>\w\<close> and the flag
  \<open>re.IGNORECASE\<close> of module \<open>re\<close>; they are a parameter of the
  model. \<open>u_ieq U p c\<close>: the pattern's literal \<open>p\<close> matches the
  text's code point \<open>c\<close> under \<open>re.IGNORECASE\<close>.
\<close>

record unicode =
  u_isspace :: "nat \<Rightarrow> bool"
  u_isdecimal :: "nat \<Rightarrow> bool"
  u_isalnum :: "nat \<Rightarrow> bool"
  u_lower :: "pystr \<Rightarrow> pystr"
  u_ieq :: "nat \<Rightarrow> nat \<Rightarrow> bool"

text \<open>The tables restricted to ASCII: every other code point is caseless and in no class.\<close>

definition ascii_isspace :: "nat \<Rightarrow> bool" where
  "ascii_isspace c = ((9 \<le> c \<and> c \<le> 13) \<or> (28 \<le> c \<and> c \<le> 32))"

definition ascii_isdecimal :: "nat \<Rightarrow> bool" where
  "ascii_isdecimal c = (48 \<le> c \<and> c \<le> 57)"

definition ascii_isalnum :: "nat \<Rightarrow> bool" where
  "ascii_isalnum c = ((48 \<le> c \<and> c \<le> 57) \<or> (65 \<le> c \<and> c \<le> 90) \<or> (97 \<le> c \<and> c \<le> 122))"

definition ascii_tolower :: "nat \<Rightarrow> nat" where
  "ascii_tolower c = (if 65 \<le> c \<and> c \<le> 90 then c + 32 else c)"

definition ascii :: unicode where
  "ascii = \<lparr> u_isspace = ascii_isspace, u_isdecimal = ascii_isdecimal,
     u_isalnum = ascii_isalnum, u_lower = map ascii_tolower,
     u_ieq = (\<lambda>p c. ascii_tolower c = ascii_tolower p) \<rparr>"

text \<open>
  What the examples of the specification need of the tables: on ASCII text they are the
  ASCII ones, and the en dash is neither a space, a digit nor a word character.
\<close>

definition ascii_text :: "pystr \<Rightarrow> bool" where
  "ascii_text s = list_all (\<lambda>c. c < 128) s"

definition en_dash :: nat where
  "en_dash = 8211"

definition agrees_on_ascii :: "unicode \<Rightarrow> bool" where
  "agrees_on_ascii U =
     ((\<forall>c<128. u_isspace U c = ascii_isspace c \<and> u_isdecimal U c = ascii_isdecimal c
          \<and> u_isalnum U c = ascii_isalnum c
          \<and> (\<forall>p<128. u_ieq U p c = (ascii_tolower c = ascii_tolower p)))
      \<and> (\<forall>s. ascii_text s \<longrightarrow> u_lower U s = map ascii_tolower s)
      \<and> \<not> u_isspace U en_dash \<and> \<not> u_isdecimal U en_dash \<and> \<not> u_isalnum U en_dash)"

subsection \<open>\<open>in\<close>, \<open>str.replace\<close>, \<open>str.join\<close>, \<open>str.strip\<close>\<close>

fun startswith :: "pystr \<Rightarrow> pystr \<Rightarrow> bool" where
  "startswith s [] = True"
| "startswith [] (p # ps) = False"
| "startswith (c # cs) (p # ps) = (c = p \<and> startswith cs ps)"

text \<open>\<open>contains sub s\<close> is Python's \<open>sub in s\<close>.\<close>

fun contains :: "pystr \<Rightarrow> pystr \<Rightarrow> bool" where
  "contains sub [] = (sub = [])"
| "contains sub (c # cs) = (startswith (c # cs) sub \<or> contains sub cs)"

text \<open>
  \<open>replace s old new\<close> is \<open>s.replace(old, new)\<close> for a non-empty
  \<open>old\<close>: every occurrence, left to right, none overlapping another. (The script
  calls it with \<open>old = "[edit]"\<close> only; Python's rule for an empty \<open>old\<close>
  is not modelled, the string is returned as it is.)
\<close>

function replace :: "pystr \<Rightarrow> pystr \<Rightarrow> pystr \<Rightarrow> pystr" where
  "replace [] old new = []"
| "replace (c # cs) old new =
     (if old \<noteq> [] \<and> startswith (c # cs) old
      then new @ replace (drop (length old) (c # cs)) old new
      else c # replace cs old new)"
  by pat_completeness auto
termination
  by (relation "measure (\<lambda>(s, old, new). length s)") auto

text \<open>\<open>join sep xs\<close> is \<open>sep.join(xs)\<close>.\<close>

fun join :: "pystr \<Rightarrow> pystr list \<Rightarrow> pystr" where
  "join sep [] = []"
| "join sep [x] = x"
| "join sep (x # y # ys) = x @ sep @ join sep (y # ys)"

definition strip :: "unicode \<Rightarrow> pystr \<Rightarrow> pystr" where
  "strip U s = rev (dropWhile (u_isspace U) (rev (dropWhile (u_isspace U) s)))"

section \<open>Regular expressions\<close>

text \<open>
  The three patterns of the script, as syntax trees, and the matcher of module
  \<open>re\<close> for them: a backtracking matcher that tries the alternatives of
  \<open>|\<close> from left to right and the greedy \<open>*\<close>, \<open>+\<close> and
  \<open>?\<close> with the longest repetition first. \<open>matches U r (s, g)\<close> lists,
  in the order the matcher tries them, the ways \<open>r\<close> matches a prefix of
  \<open>s\<close>: the rest of the text and the groups closed so far, the latest first.
\<close>

datatype regex =
    Lit nat
  | ILit nat
  | Chars nat nat
  | OneOf "nat list"
  | Word
  | Digit
  | Space
  | Eps
  | Seq regex regex
  | Alt regex regex
  | Opt regex
  | Star regex
  | Group nat regex

type_synonym mstate = "pystr \<times> (nat \<times> pystr) list"

fun one :: "(nat \<Rightarrow> bool) \<Rightarrow> mstate \<Rightarrow> mstate list" where
  "one p ([], g) = []"
| "one p (c # cs, g) = (if p c then [(cs, g)] else [])"

fun close_group :: "nat \<Rightarrow> pystr \<Rightarrow> mstate list \<Rightarrow> mstate list" where
  "close_group n s [] = []"
| "close_group n s ((s', g) # ms) =
     (s', (n, take (length s - length s') s) # g) # close_group n s ms"

function matches :: "unicode \<Rightarrow> regex \<Rightarrow> mstate \<Rightarrow> mstate list"
  and matches_each :: "unicode \<Rightarrow> regex \<Rightarrow> nat \<Rightarrow> mstate list \<Rightarrow> mstate list" where
  "matches U (Lit a) st = one (\<lambda>c. c = a) st"
| "matches U (ILit a) st = one (u_ieq U a) st"
| "matches U (Chars lo hi) st = one (\<lambda>c. lo \<le> c \<and> c \<le> hi) st"
| "matches U (OneOf cs) st = one (\<lambda>c. c \<in> set cs) st"
| "matches U Word st = one (\<lambda>c. u_isalnum U c \<or> c = 95) st"
| "matches U Digit st = one (u_isdecimal U) st"
| "matches U Space st = one (u_isspace U) st"
| "matches U Eps st = [st]"
| "matches U (Seq a b) st = matches_each U b (Suc (length (fst st))) (matches U a st)"
| "matches U (Alt a b) st = matches U a st @ matches U b st"
| "matches U (Opt a) st = matches U a st @ [st]"
| "matches U (Star a) st = matches_each U (Star a) (length (fst st)) (matches U a st) @ [st]"
| "matches U (Group n a) st = close_group n (fst st) (matches U a st)"
| "matches_each U r n [] = []"
| "matches_each U r n (st # sts) =
     (if length (fst st) < n then matches U r st else []) @ matches_each U r n sts"
  by pat_completeness auto
termination
  by (relation "inv_image (less_than <*lex*> less_than <*lex*> less_than <*lex*> less_than)
        (\<lambda>x. case x of
           Inl (U, r, st) \<Rightarrow> (size r, length (fst st), 1, 0)
         | Inr (U, r, n, sts) \<Rightarrow> (size r, n, 0, length sts))") auto

text \<open>
  In \<open>Seq\<close> the bound of \<open>matches_each\<close> lets every way through, since a
  match never lengthens the rest of the text (lemma \<open>matches_Seq\<close>); in \<open>Star\<close> a
  repetition that consumed nothing is not repeated.
\<close>

text \<open>\<open>closes k r\<close>: every match of \<open>r\<close> closes the group \<open>k\<close>.\<close>

fun closes :: "nat \<Rightarrow> regex \<Rightarrow> bool" where
  "closes k (Group n a) = (n = k \<or> closes k a)"
| "closes k (Seq a b) = (closes k a \<or> closes k b)"
| "closes k (Alt a b) = (closes k a \<and> closes k b)"
| "closes k r = False"

definition Plus :: "regex \<Rightarrow> regex" where
  "Plus r = Seq r (Star r)"

fun seq :: "regex list \<Rightarrow> regex" where
  "seq [] = Eps"
| "seq [r] = r"
| "seq (r # rs) = Seq r (seq rs)"

definition ilit :: "string \<Rightarrow> regex" where
  "ilit s = seq (map ILit (py s))"

text \<open>
  A match object is the list of its groups. \<open>match_group m n\<close> is \<open>m.group(n)\<close>
  for a group that took part in the match; in the script's patterns every group does
  (lemmas \<open>date_pattern_groups\<close> and \<open>death_number_pattern_groups\<close>).
\<close>

type_synonym pymatch = "(nat \<times> pystr) list"

definition match_group :: "pymatch \<Rightarrow> nat \<Rightarrow> pystr" where
  "match_group m n = (case map_of m n of Some s \<Rightarrow> s | None \<Rightarrow> [])"

text \<open>\<open>pattern.search(text)\<close>: the first way to match at the leftmost position that has one.\<close>

fun search :: "unicode \<Rightarrow> regex \<Rightarrow> pystr \<Rightarrow> pymatch option" where
  "search U r [] = (case matches U r ([], []) of [] \<Rightarrow> None | (s', g) # ms \<Rightarrow> Some g)"
| "search U r (c # cs) =
     (case matches U r (c # cs, []) of [] \<Rightarrow> search U r cs | (s', g) # ms \<Rightarrow> Some g)"

text \<open>
  \<open>re.findall(pattern, text)\<close> for a pattern without groups: the matched texts,
  left to right, each search starting where the last match ended (one code point on
  after an empty match).
\<close>

function findall :: "unicode \<Rightarrow> regex \<Rightarrow> pystr \<Rightarrow> pystr list" where
  "findall U r [] = (case matches U r ([], []) of [] \<Rightarrow> [] | m # ms \<Rightarrow> [[]])"
| "findall U r (c # cs) =
     (case matches U r (c # cs, []) of
        [] \<Rightarrow> findall U r cs
      | (s', g) # ms \<Rightarrow>
          (if length s' < Suc (length cs)
           then take (Suc (length cs) - length s') (c # cs) # findall U r s'
           else [] # findall U r cs))"
  by pat_completeness auto
termination
  by (relation "measure (\<lambda>(U, r, s). length s)") auto

subsection \<open>The patterns of the script\<close>

text \<open>\<^verbatim>\<open>(\w+ \d+)\s*[\<endash>-]\s*(\w+ \d+)\<close>, the first of the class being the en dash.\<close>

definition date_pattern :: regex where
  "date_pattern =
     seq [Group 1 (seq [Plus Word, Lit 32, Plus Digit]),
          Star Space, OneOf [en_dash, 45], Star Space,
          Group 2 (seq [Plus Word, Lit 32, Plus Digit])]"

text \<open>
  \<^verbatim>\<open>(?:killed|caused|fatalities|deaths|killing)\s*(\d+)\s*(?:people|fatalities|deaths|persons)?\<close>
  with \<open>re.IGNORECASE\<close>.
\<close>

definition death_number_pattern :: regex where
  "death_number_pattern =
     seq [Alt (ilit ''killed'') (Alt (ilit ''caused'') (Alt (ilit ''fatalities'')
            (Alt (ilit ''deaths'') (ilit ''killing'')))),
          Star Space, Group 1 (Plus Digit), Star Space,
          Opt (Alt (ilit ''people'') (Alt (ilit ''fatalities'')
            (Alt (ilit ''deaths'') (ilit ''persons''))))]"

text \<open>\<^verbatim>\<open>[A-Z][a-z]+(?: [A-Z][a-z]+)*\<close>\<close>

definition location_pattern :: regex where
  "location_pattern =
     seq [Chars 65 90, Plus (Chars 97 122),
          Star (seq [Lit 32, Chars 65 90, Plus (Chars 97 122)])]"


section \<open>The parsed page\<close>

text \<open>
  The tree that \<open>BeautifulSoup(response.content, "html.parser")\<close> hands to the
  script, as far as the script looks at it: a text node, or an element (\<open>Tag\<close>)
  with its name, the values of its \<open>class\<close> attribute and its children. A text
  node is \<open>Str\<close> when its class is \<open>NavigableString\<close> or \<open>CData\<close>, the
  classes that \<open>get_text\<close> and \<open>stripped_strings\<close> collect, and \<open>Other\<close> when
  it is of another class of strings (a comment, a doctype, the text of a \<open>script\<close>,
  \<open>style\<close> or \<open>template\<close> tag), which they leave out. A page is the list of the
  top-level nodes. The HTTP request, the logging calls and the writing of the CSV file
  are outside the model.
\<close>

datatype node =
    Str pystr
  | Other pystr
  | Tag pystr "pystr list" "node list"

fun is_tag :: "pystr \<Rightarrow> node \<Rightarrow> bool" where
  "is_tag name (Str s) = False"
| "is_tag name (Other s) = False"
| "is_tag name (Tag nm cl cs) = (nm = name)"

text \<open>
  A value of a multi-valued attribute matches when one of its items does, or when the
  items joined by a blank do.
\<close>

fun has_class :: "pystr \<Rightarrow> node \<Rightarrow> bool" where
  "has_class c (Str s) = False"
| "has_class c (Other s) = False"
| "has_class c (Tag nm cl cs) = (c \<in> set cl \<or> join (py '' '') cl = c)"

fun children :: "node \<Rightarrow> node list" where
  "children (Str s) = []"
| "children (Other s) = []"
| "children (Tag nm cl cs) = cs"

text \<open>
  \<open>elements ns\<close>: the nodes below the list \<open>ns\<close> in document order, each
  with the siblings that follow it.
\<close>

fun elements :: "node list \<Rightarrow> (node \<times> node list) list" where
  "elements [] = []"
| "elements (Str s # ns) = (Str s, ns) # elements ns"
| "elements (Other s # ns) = (Other s, ns) # elements ns"
| "elements (Tag nm cl cs # ns) = (Tag nm cl cs, ns) # elements cs @ elements ns"

text \<open>
  An element as the script holds it: the node, the siblings after it
  (\<open>next_siblings\<close>) and all the nodes after its start tag, in document order
  (\<open>next_elements\<close>: its own descendants first, then the rest of the page).
\<close>

record element =
  el :: node
  next_siblings :: "node list"
  next_elements :: "node list"

fun locate :: "(node \<times> node list) list \<Rightarrow> element list" where
  "locate [] = []"
| "locate ((n, sibs) # rest) =
     \<lparr> el = n, next_siblings = sibs, next_elements = map fst rest \<rparr> # locate rest"

text \<open>\<open>soup.find_all(name)\<close>\<close>

definition find_all :: "node list \<Rightarrow> pystr \<Rightarrow> element list" where
  "find_all soup name = filter (\<lambda>e. is_tag name (el e)) (locate (elements soup))"

text \<open>\<open>for sup in soup.find_all('sup'): sup.extract()\<close>\<close>

fun extract_sup :: "node list \<Rightarrow> node list" where
  "extract_sup [] = []"
| "extract_sup (Str s # ns) = Str s # extract_sup ns"
| "extract_sup (Other s # ns) = Other s # extract_sup ns"
| "extract_sup (Tag nm cl cs # ns) =
     (if nm = py ''sup'' then extract_sup ns else Tag nm cl (extract_sup cs) # extract_sup ns)"

text \<open>
  \<open>tag.stripped_strings\<close>: the \<open>Str\<close> text nodes below the tag, each stripped,
  the empty ones left out; \<open>tag.get_text(strip=True)\<close> joins them with nothing
  between. (The script calls them on \<open>h3\<close>, \<open>td\<close> and \<open>p\<close> tags.)
\<close>

fun strings :: "node \<Rightarrow> pystr list" where
  "strings (Str s) = [s]"
| "strings (Other s) = []"
| "strings (Tag nm cl cs) = concat (map strings cs)"

definition stripped_strings :: "unicode \<Rightarrow> node \<Rightarrow> pystr list" where
  "stripped_strings U n = filter (\<lambda>s. s \<noteq> []) (map (strip U) (strings n))"

definition get_text_strip :: "unicode \<Rightarrow> node \<Rightarrow> pystr" where
  "get_text_strip U n = concat (stripped_strings U n)"

text \<open>
  \<open>tag.string\<close>: the text of a tag whose only child is a text node, of whatever
  class, or a tag that has a \<open>string\<close> itself.
\<close>

fun node_string :: "node \<Rightarrow> pystr option" where
  "node_string (Str s) = Some s"
| "node_string (Other s) = Some s"
| "node_string (Tag nm cl [c]) = node_string c"
| "node_string (Tag nm cl cs) = None"

text \<open>\<open>heading.find_next("table", {"class": "infobox"})\<close>\<close>

definition find_next_infobox :: "element \<Rightarrow> node option" where
  "find_next_infobox heading =
     List.find (\<lambda>n. is_tag (py ''table'') n \<and> has_class (py ''infobox'') n) (next_elements heading)"

text \<open>
  \<open>infobox.find("th", text="Duration")\<close>: the first \<open>th\<close> below the table
  whose \<open>string\<close> is \<open>Duration\<close>, with the siblings after it.
\<close>

definition find_duration_row :: "node \<Rightarrow> (node \<times> node list) option" where
  "find_duration_row infobox =
     List.find (\<lambda>(n, sibs). is_tag (py ''th'') n \<and> node_string n = Some (py ''Duration''))
       (elements (children infobox))"

text \<open>\<open>duration_row.find_next_sibling("td")\<close>\<close>

definition find_next_sibling_td :: "node list \<Rightarrow> node option" where
  "find_next_sibling_td sibs = List.find (is_tag (py ''td'')) sibs"

section \<open>The script\<close>

definition affected_keywords :: "pystr list" where
  "affected_keywords =
     [py ''landfall'', py ''affected'', py ''hit'', py ''struck'', py ''damaged'',
      py ''moved through'', py ''impacted'']"

definition has_keyword :: "unicode \<Rightarrow> pystr \<Rightarrow> bool" where
  "has_keyword U text = list_ex (\<lambda>keyword. contains keyword (u_lower U text)) affected_keywords"

definition relevant_locations :: "unicode \<Rightarrow> pystr \<Rightarrow> pystr list" where
  "relevant_locations U text =
     (let locations = findall U location_pattern text
      in filter (\<lambda>loc. has_keyword U text) locations)"

definition extract_affected_areas :: "unicode \<Rightarrow> pystr \<Rightarrow> pystr list" where
  "extract_affected_areas U text =
     (let locations = findall U location_pattern text;
          relevant_locations = relevant_locations U text
      in if relevant_locations \<noteq> [] then relevant_locations else locations)"

text \<open>The name of a heading: \<open>heading.get_text(strip=True).replace("[edit]", "")\<close>.\<close>

definition heading_name :: "unicode \<Rightarrow> element \<Rightarrow> pystr" where
  "heading_name U heading = replace (get_text_strip U (el heading)) (py ''[edit]'') []"

text \<open>The dates of \<open>process_hurricane\<close>: the placeholders, or the two groups of the pattern.\<close>

definition duration_dates :: "unicode \<Rightarrow> element \<Rightarrow> pystr \<times> pystr" where
  "duration_dates U heading =
     (case find_next_infobox heading of
        None \<Rightarrow> (py ''-'', py ''-'')
      | Some infobox \<Rightarrow>
          (case find_duration_row infobox of
             None \<Rightarrow> (py ''-'', py ''-'')
           | Some (duration_row, sibs) \<Rightarrow>
               (case find_next_sibling_td sibs of
                  None \<Rightarrow> (py ''-'', py ''-'')
                | Some duration_data \<Rightarrow>
                    (case search U date_pattern (get_text_strip U duration_data) of
                       None \<Rightarrow> (py ''-'', py ''-'')
                     | Some date_parts \<Rightarrow> (match_group date_parts 1, match_group date_parts 2)))))"

text \<open>
  The body of the loop over the siblings, for a paragraph with the text
  \<open>" ".join(sibling.stripped_strings)\<close>: the deaths and the areas found so far,
  updated.
\<close>

definition paragraph_text :: "unicode \<Rightarrow> node \<Rightarrow> pystr" where
  "paragraph_text U sibling = join (py '' '') (stripped_strings U sibling)"

definition scan_paragraph :: "unicode \<Rightarrow> pystr \<Rightarrow> pystr \<times> pystr list \<Rightarrow> pystr \<times> pystr list" where
  "scan_paragraph U text st =
     (let hurricane_deaths =
            (case search U death_number_pattern text of
               Some death_match \<Rightarrow> match_group death_match 1
             | None \<Rightarrow> fst st);
          locations = extract_affected_areas U text;
          hurricane_affected_areas = (if locations \<noteq> [] then snd st @ locations else snd st)
      in (hurricane_deaths, hurricane_affected_areas))"

text \<open>
  The loop \<open>while sibling and sibling.name not in ["h3", "h4"]\<close> over the siblings after
  the heading; \<open>find_next_sibling()\<close> steps from tag to tag, over the text nodes.
\<close>

fun walk :: "unicode \<Rightarrow> node list \<Rightarrow> pystr \<times> pystr list \<Rightarrow> pystr \<times> pystr list" where
  "walk U [] st = st"
| "walk U (Str s # sibs) st = walk U sibs st"
| "walk U (Other s # sibs) st = walk U sibs st"
| "walk U (Tag nm cl cs # sibs) st =
     (if nm = py ''h3'' \<or> nm = py ''h4'' then st
      else if nm = py ''p'' then walk U sibs (scan_paragraph U (paragraph_text U (Tag nm cl cs)) st)
      else walk U sibs st)"

text \<open>The manual override for Hurricane Olivia.\<close>

definition olivia_override :: "unicode \<Rightarrow> pystr \<Rightarrow> pystr \<times> pystr list \<Rightarrow> pystr \<times> pystr list" where
  "olivia_override U hurricane_name st =
     (if contains (py ''olivia'') (u_lower U hurricane_name)
      then (py ''30'', [py ''Sinaloa, Mexico''])
      else st)"

text \<open>One row of the table, and the five lists the script appends the rows to.\<close>

record hurricane =
  name :: pystr
  date_start :: pystr
  date_end :: pystr
  death_count :: pystr
  affected_areas :: pystr

record table =
  hurricane_names :: "pystr list"
  start_dates :: "pystr list"
  end_dates :: "pystr list"
  deaths :: "pystr list"
  areas_affected :: "pystr list"

definition empty_table :: table where
  "empty_table = \<lparr> hurricane_names = [], start_dates = [], end_dates = [], deaths = [],
     areas_affected = [] \<rparr>"

text \<open>\<open>process_hurricane\<close> up to the five \<open>append\<close>s: the row it computes.\<close>

definition hurricane_row :: "unicode \<Rightarrow> element \<Rightarrow> hurricane" where
  "hurricane_row U heading =
     (let hurricane_name = heading_name U heading;
          (date_start, date_end) = duration_dates U heading;
          (hurricane_deaths, hurricane_affected_areas) =
             olivia_override U hurricane_name (walk U (next_siblings heading) (py ''0'', []));
          affected_areas =
             (if hurricane_affected_areas \<noteq> [] then join (py ''; '') hurricane_affected_areas
              else py ''-'')
      in \<lparr> name = hurricane_name, date_start = date_start, date_end = date_end,
           death_count = hurricane_deaths, affected_areas = affected_areas \<rparr>)"

definition process_hurricane :: "unicode \<Rightarrow> element \<Rightarrow> table \<Rightarrow> table" where
  "process_hurricane U heading t =
     (let r = hurricane_row U heading
      in \<lparr> hurricane_names = hurricane_names t @ [name r],
           start_dates = start_dates t @ [date_start r],
           end_dates = end_dates t @ [date_end r],
           deaths = deaths t @ [death_count r],
           areas_affected = areas_affected t @ [affected_areas r] \<rparr>)"

text \<open>The filter of the loop over the headings.\<close>

definition is_storm_heading :: "unicode \<Rightarrow> element \<Rightarrow> bool" where
  "is_storm_heading U heading =
     (let hurricane_name = heading_name U heading
      in contains (py ''hurricane'') (u_lower U hurricane_name)
         \<or> contains (py ''storm'') (u_lower U hurricane_name))"

fun process_headings :: "unicode \<Rightarrow> element list \<Rightarrow> table \<Rightarrow> table" where
  "process_headings U [] t = t"
| "process_headings U (heading # headings) t =
     process_headings U headings
       (if is_storm_heading U heading then process_hurricane U heading t else t)"

text \<open>The script, from the parsed page to the five lists.\<close>

definition scrape :: "unicode \<Rightarrow> node list \<Rightarrow> table" where
  "scrape U page =
     (let soup = extract_sup page
      in process_headings U (find_all soup (py ''h3'')) empty_table)"


section \<open>Notions the properties are stated with\<close>

text \<open>The headings the loop processes: the \<open>h3\<close> tags that pass its filter, in document order.\<close>

definition storm_headings :: "unicode \<Rightarrow> node list \<Rightarrow> element list" where
  "storm_headings U page =
     filter (is_storm_heading U) (find_all (extract_sup page) (py ''h3''))"

text \<open>
  The paragraphs the loop over the siblings reaches: the \<open>p\<close> tags before the
  first \<open>h3\<close> or \<open>h4\<close>; and the matches of the death pattern in them, in the
  order of the paragraphs.
\<close>

definition stops_walk :: "node \<Rightarrow> bool" where
  "stops_walk n = (is_tag (py ''h3'') n \<or> is_tag (py ''h4'') n)"

definition walk_paragraphs :: "node list \<Rightarrow> node list" where
  "walk_paragraphs sibs = filter (is_tag (py ''p'')) (takeWhile (\<lambda>n. \<not> stops_walk n) sibs)"

definition death_matches :: "unicode \<Rightarrow> node list \<Rightarrow> pymatch list" where
  "death_matches U sibs =
     List.map_filter (\<lambda>p. search U death_number_pattern (paragraph_text U p)) (walk_paragraphs sibs)"

text \<open>The infobox tables after a heading, anywhere in the rest of the page.\<close>

definition is_infobox :: "node \<Rightarrow> bool" where
  "is_infobox n = (is_tag (py ''table'') n \<and> has_class (py ''infobox'') n)"

definition following_infoboxes :: "element \<Rightarrow> node list" where
  "following_infoboxes heading = filter is_infobox (next_elements heading)"

text \<open>
  The content of a Section in the specification's sense, its own: the nodes after the
  heading, in document order, up to the next \<open>h3\<close>. The script has no such notion;
  it serves to state what the specification says of a Section with no infobox of its own.
\<close>

definition section_content :: "element \<Rightarrow> node list" where
  "section_content heading = takeWhile (\<lambda>n. \<not> is_tag (py ''h3'') n) (next_elements heading)"

text \<open>
  The plain proper-noun matcher of the specification, which the keyword gate of
  \<open>extract_affected_areas\<close> is compared with.
\<close>

definition proper_nouns :: "unicode \<Rightarrow> pystr \<Rightarrow> pystr list" where
  "proper_nouns U text = findall U location_pattern text"

section \<open>Example pages\<close>

definition death_sentence :: pystr where
  "death_sentence = py ''The storm killed 15 people in Sinaloa.''"

definition august_range :: pystr where
  "august_range = py ''August 12 '' @ [en_dash] @ py '' August 18''"

definition duration_table :: "pystr \<Rightarrow> node" where
  "duration_table duration =
     Tag (py ''table'') [py ''infobox'']
       [Tag (py ''tr'') [] [Tag (py ''th'') [] [Str (py ''Duration'')],
                           Tag (py ''td'') [] [Str duration]]]"

text \<open>
  Two storms and a closing section. The first storm has no infobox between its heading
  and the next; the heading of the first carries the edit link as Wikipedia writes it.
\<close>

definition season_page :: "node list" where
  "season_page =
     [Tag (py ''h3'') []
        [Tag (py ''span'') [] [Str (py ''Tropical Storm Agatha'')],
         Tag (py ''span'') [] [Str (py ''[''), Tag (py ''a'') [] [Str (py ''edit'')], Str (py '']'')]],
      Str (py '' ''),
      Tag (py ''p'') [] [Str (py ''Agatha stayed at sea. '')],
      Tag (py ''h3'') [] [Str (py ''Hurricane Olivia[edit]'')],
      duration_table august_range,
      Tag (py ''p'') [] [Str death_sentence],
      Tag (py ''h3'') [] [Str (py ''See also'')]]"

text \<open>A storm whose paragraph names no deaths.\<close>

definition quiet_page :: "node list" where
  "quiet_page =
     [Tag (py ''h3'') [] [Str (py ''Tropical Storm Agatha'')],
      Tag (py ''p'') [] [Str (py ''Agatha stayed at sea.'')]]"


text \<open>A storm with two paragraphs that name deaths, and the same under the name Olivia.\<close>

definition katrina_page :: "node list" where
  "katrina_page =
     [Tag (py ''h3'') [] [Str (py ''Hurricane Katrina'')],
      Tag (py ''p'') [] [Str death_sentence],
      Tag (py ''p'') [] [Str (py ''Later reports: 20 deaths, the flood killing 21.'')],
      Tag (py ''p'') [] [Str (py ''Katrina then moved through Baja California.'')]]"

definition olivia_page :: "node list" where
  "olivia_page =
     [Tag (py ''h3'') [] [Str (py ''Hurricane Olivia'')],
      duration_table august_range,
      Tag (py ''p'') [] [Str death_sentence]]"

text \<open>A storm with the one paragraph of the specification's example.\<close>

definition sinaloa_page :: "node list" where
  "sinaloa_page =
     [Tag (py ''h3'') [] [Str (py ''Tropical Storm Agatha'')],
      Tag (py ''p'') [] [Str death_sentence]]"



text \<open>The first storm heading of an example page (each of them has one).\<close>

definition first_storm :: "node list \<Rightarrow> element" where
  "first_storm page = hd (storm_headings ascii page)"

section \<open>Evaluation and general facts\<close>

lemmas ascii_simps = ascii_def ascii_isalnum_def ascii_isdecimal_def ascii_isspace_def
  ascii_tolower_def

lemmas pattern_simps = date_pattern_def death_number_pattern_def location_pattern_def ilit_def
  Plus_def en_dash_def

lemmas script_simps = scrape_def find_all_def py_def Let_def empty_table_def
  is_storm_heading_def heading_name_def get_text_strip_def stripped_strings_def strip_def
  process_hurricane_def hurricane_row_def duration_dates_def find_next_infobox_def
  find_duration_row_def find_next_sibling_td_def olivia_override_def scan_paragraph_def
  paragraph_text_def extract_affected_areas_def relevant_locations_def has_keyword_def
  affected_keywords_def match_group_def storm_headings_def stops_walk_def walk_paragraphs_def
  death_matches_def is_infobox_def following_infoboxes_def section_content_def proper_nouns_def
  first_storm_def

lemmas page_simps = death_sentence_def august_range_def duration_table_def

lemma agrees_on_ascii_ascii: "agrees_on_ascii ascii"
  by (simp add: agrees_on_ascii_def ascii_simps en_dash_def)

subsection \<open>The matcher\<close>

lemma one_set: "x \<in> set (one p st) \<Longrightarrow> length (fst x) < length (fst st) \<and> snd x = snd st"
  by (cases "(p, st)" rule: one.cases) (auto split: if_splits)

lemma close_group_set:
  "x \<in> set (close_group n s ms) \<Longrightarrow>
     \<exists>y\<in>set ms. fst x = fst y \<and> (\<exists>v. snd x = (n, v) # snd y)"
  by (induction n s ms rule: close_group.induct) auto

lemma matches_length:
  "x \<in> set (matches U r st) \<Longrightarrow> length (fst x) \<le> length (fst st)"
  "x \<in> set (matches_each U r n sts) \<Longrightarrow> \<exists>st\<in>set sts. length (fst x) \<le> length (fst st)"
proof (induction U r st and U r n sts arbitrary: x and x rule: matches_matches_each.induct)
  case (1 U a st)
  then show ?case by (force dest: one_set)
next
  case (2 U a st)
  then show ?case by (force dest: one_set)
next
  case (3 U lo hi st)
  then show ?case by (force dest: one_set)
next
  case (4 U cs st)
  then show ?case by (force dest: one_set)
next
  case (5 U st)
  then show ?case by (force dest: one_set)
next
  case (6 U st)
  then show ?case by (force dest: one_set)
next
  case (7 U st)
  then show ?case by (force dest: one_set)
next
  case (8 U st)
  then show ?case by simp
next
  case (9 U a b st)
  from "9.prems" have "x \<in> set (matches_each U b (Suc (length (fst st))) (matches U a st))"
    by simp
  from "9.IH"(2) [OF this] obtain y where y: "y \<in> set (matches U a st)"
    "length (fst x) \<le> length (fst y)"
    by blast
  from "9.IH"(1) [OF y(1)] y(2) show ?case by simp
next
  case (10 U a b st)
  from "10.prems" have "x \<in> set (matches U a st) \<or> x \<in> set (matches U b st)"
    by simp
  then show ?case
  proof
    assume "x \<in> set (matches U a st)"
    from "10.IH"(1) [OF this] show ?thesis .
  next
    assume "x \<in> set (matches U b st)"
    from "10.IH"(2) [OF this] show ?thesis .
  qed
next
  case (11 U a st)
  from "11.prems" have "x \<in> set (matches U a st) \<or> x = st"
    by auto
  then show ?case
  proof
    assume "x \<in> set (matches U a st)"
    from "11.IH" [OF this] show ?thesis .
  next
    assume "x = st"
    then show ?thesis by simp
  qed
next
  case (12 U a st)
  from "12.prems" have
    "x \<in> set (matches_each U (Star a) (length (fst st)) (matches U a st)) \<or> x = st"
    by auto
  then show ?case
  proof
    assume "x \<in> set (matches_each U (Star a) (length (fst st)) (matches U a st))"
    from "12.IH"(2) [OF this] obtain y where y: "y \<in> set (matches U a st)"
      "length (fst x) \<le> length (fst y)"
      by blast
    from "12.IH"(1) [OF y(1)] y(2) show ?thesis by simp
  next
    assume "x = st"
    then show ?thesis by simp
  qed
next
  case (13 U n a st)
  from "13.prems" have "x \<in> set (close_group n (fst st) (matches U a st))"
    by simp
  from close_group_set [OF this] obtain y where y: "y \<in> set (matches U a st)" "fst x = fst y"
    by blast
  from "13.IH" [OF y(1)] y(2) show ?case by simp
next
  case (14 U r n)
  then show ?case by simp
next
  case (15 U r n st sts)
  from "15.prems" have
    "(length (fst st) < n \<and> x \<in> set (matches U r st)) \<or> x \<in> set (matches_each U r n sts)"
    by (simp split: if_splits)
  then show ?case
  proof
    assume a: "length (fst st) < n \<and> x \<in> set (matches U r st)"
    then have "length (fst x) \<le> length (fst st)"
      using "15.IH"(1) by blast
    then show ?thesis by simp
  next
    assume "x \<in> set (matches_each U r n sts)"
    from "15.IH"(2) [OF this] show ?thesis by auto
  qed
qed

lemma matches_each_concat:
  "\<forall>st\<in>set sts. length (fst st) < n \<Longrightarrow>
     matches_each U r n sts = concat (map (matches U r) sts)"
  by (induction sts) simp_all

lemma matches_Seq: "matches U (Seq a b) st = concat (map (matches U b) (matches U a st))"
  using matches_length(1) [of _ U a st]
  by (simp add: matches_each_concat less_Suc_eq_le)

lemma matches_groups:
  "x \<in> set (matches U r st) \<Longrightarrow>
     \<exists>g. snd x = g @ snd st \<and> (closes k r \<longrightarrow> k \<in> fst ` set g)"
  "x \<in> set (matches_each U r n sts) \<Longrightarrow>
     \<exists>st\<in>set sts. \<exists>g. snd x = g @ snd st \<and> (closes k r \<longrightarrow> k \<in> fst ` set g)"
proof (induction U r st and U r n sts arbitrary: x and x rule: matches_matches_each.induct)
  case (1 U a st)
  then show ?case by (force dest: one_set)
next
  case (2 U a st)
  then show ?case by (force dest: one_set)
next
  case (3 U lo hi st)
  then show ?case by (force dest: one_set)
next
  case (4 U cs st)
  then show ?case by (force dest: one_set)
next
  case (5 U st)
  then show ?case by (force dest: one_set)
next
  case (6 U st)
  then show ?case by (force dest: one_set)
next
  case (7 U st)
  then show ?case by (force dest: one_set)
next
  case (8 U st)
  then show ?case by simp
next
  case (9 U a b st)
  from "9.prems" have "x \<in> set (matches_each U b (Suc (length (fst st))) (matches U a st))"
    by simp
  from "9.IH"(2) [OF this] obtain y g1 where y: "y \<in> set (matches U a st)"
    "snd x = g1 @ snd y" "closes k b \<longrightarrow> k \<in> fst ` set g1"
    by blast
  from "9.IH"(1) [OF y(1)] obtain g2 where g2: "snd y = g2 @ snd st"
    "closes k a \<longrightarrow> k \<in> fst ` set g2"
    by blast
  have "snd x = (g1 @ g2) @ snd st"
    using y(2) g2(1) by simp
  moreover have "closes k (Seq a b) \<longrightarrow> k \<in> fst ` set (g1 @ g2)"
    using y(3) g2(2) by auto
  ultimately show ?case by blast
next
  case (10 U a b st)
  from "10.prems" have "x \<in> set (matches U a st) \<or> x \<in> set (matches U b st)"
    by simp
  then show ?case
  proof
    assume "x \<in> set (matches U a st)"
    from "10.IH"(1) [OF this] show ?thesis by auto
  next
    assume "x \<in> set (matches U b st)"
    from "10.IH"(2) [OF this] show ?thesis by auto
  qed
next
  case (11 U a st)
  from "11.prems" have "x \<in> set (matches U a st) \<or> x = st"
    by auto
  then show ?case
  proof
    assume "x \<in> set (matches U a st)"
    from "11.IH" [OF this] show ?thesis by auto
  next
    assume "x = st"
    then show ?thesis by simp
  qed
next
  case (12 U a st)
  from "12.prems" have
    "x \<in> set (matches_each U (Star a) (length (fst st)) (matches U a st)) \<or> x = st"
    by auto
  then show ?case
  proof
    assume "x \<in> set (matches_each U (Star a) (length (fst st)) (matches U a st))"
    from "12.IH"(2) [OF this] obtain y g1 where y: "y \<in> set (matches U a st)"
      "snd x = g1 @ snd y"
      by blast
    from "12.IH"(1) [OF y(1)] obtain g2 where g2: "snd y = g2 @ snd st"
      by blast
    have "snd x = (g1 @ g2) @ snd st"
      using y(2) g2 by simp
    then show ?thesis by auto
  next
    assume "x = st"
    then show ?thesis by simp
  qed
next
  case (13 U n a st)
  from "13.prems" have "x \<in> set (close_group n (fst st) (matches U a st))"
    by simp
  from close_group_set [OF this] obtain y v where y: "y \<in> set (matches U a st)"
    "snd x = (n, v) # snd y"
    by blast
  from "13.IH" [OF y(1)] obtain g where g: "snd y = g @ snd st"
    "closes k a \<longrightarrow> k \<in> fst ` set g"
    by blast
  have "snd x = ((n, v) # g) @ snd st"
    using y(2) g(1) by simp
  moreover have "closes k (Group n a) \<longrightarrow> k \<in> fst ` set ((n, v) # g)"
    using g(2) by auto
  ultimately show ?case by blast
next
  case (14 U r n)
  then show ?case by simp
next
  case (15 U r n st sts)
  from "15.prems" have
    "(length (fst st) < n \<and> x \<in> set (matches U r st)) \<or> x \<in> set (matches_each U r n sts)"
    by (simp split: if_splits)
  then show ?case
  proof
    assume a: "length (fst st) < n \<and> x \<in> set (matches U r st)"
    then have "\<exists>g. snd x = g @ snd st \<and> (closes k r \<longrightarrow> k \<in> fst ` set g)"
      using "15.IH"(1) by blast
    then show ?thesis by simp
  next
    assume "x \<in> set (matches_each U r n sts)"
    from "15.IH"(2) [OF this] show ?thesis by auto
  qed
qed

lemma search_Some:
  "search U r s = Some m \<Longrightarrow> \<exists>t s'. (s', m) \<in> set (matches U r (t, []))"
proof (induction s)
  case Nil
  show ?case
  proof (cases "matches U r ([], [])")
    case Nil
    with Nil.prems show ?thesis by simp
  next
    case (Cons x ms)
    with Nil.prems have "(fst x, m) \<in> set (matches U r ([], []))"
      by (cases x) auto
    then show ?thesis by blast
  qed
next
  case (Cons c cs)
  show ?case
  proof (cases "matches U r (c # cs, [])")
    case Nil
    with Cons show ?thesis by simp
  next
    case (Cons x ms)
    with Cons.prems have "(fst x, m) \<in> set (matches U r (c # cs, []))"
      by (cases x) auto
    then show ?thesis by blast
  qed
qed

lemma search_groups:
  assumes "search U r s = Some m" and "closes k r"
  shows "map_of m k \<noteq> None"
proof -
  from search_Some [OF assms(1)] obtain t s' where "(s', m) \<in> set (matches U r (t, []))"
    by blast
  from matches_groups(1) [OF this, of k] assms(2) have "k \<in> fst ` set m"
    by simp
  then show ?thesis
    by (simp add: map_of_eq_None_iff)
qed

lemma date_pattern_groups:
  "search U date_pattern s = Some m \<Longrightarrow> map_of m 1 \<noteq> None \<and> map_of m 2 \<noteq> None"
  using search_groups [of U date_pattern s m 1] search_groups [of U date_pattern s m 2]
  by (simp add: date_pattern_def)

lemma death_number_pattern_groups:
  "search U death_number_pattern s = Some m \<Longrightarrow> map_of m 1 \<noteq> None"
  using search_groups [of U death_number_pattern s m 1]
  by (simp add: death_number_pattern_def)

subsection \<open>The loop over the headings\<close>

lemma process_headings_append:
  "process_headings U hs t =
     \<lparr> hurricane_names = hurricane_names t
          @ map (\<lambda>h. name (hurricane_row U h)) (filter (is_storm_heading U) hs),
       start_dates = start_dates t
          @ map (\<lambda>h. date_start (hurricane_row U h)) (filter (is_storm_heading U) hs),
       end_dates = end_dates t
          @ map (\<lambda>h. date_end (hurricane_row U h)) (filter (is_storm_heading U) hs),
       deaths = deaths t
          @ map (\<lambda>h. death_count (hurricane_row U h)) (filter (is_storm_heading U) hs),
       areas_affected = areas_affected t
          @ map (\<lambda>h. affected_areas (hurricane_row U h)) (filter (is_storm_heading U) hs) \<rparr>"
proof (induction hs arbitrary: t)
  case Nil
  show ?case by simp
next
  case (Cons h hs)
  show ?case
    by (simp add: Cons.IH process_hurricane_def Let_def)
qed

lemma scrape_rows:
  "scrape U page =
     \<lparr> hurricane_names = map (\<lambda>h. name (hurricane_row U h)) (storm_headings U page),
       start_dates = map (\<lambda>h. date_start (hurricane_row U h)) (storm_headings U page),
       end_dates = map (\<lambda>h. date_end (hurricane_row U h)) (storm_headings U page),
       deaths = map (\<lambda>h. death_count (hurricane_row U h)) (storm_headings U page),
       areas_affected = map (\<lambda>h. affected_areas (hurricane_row U h)) (storm_headings U page) \<rparr>"
  by (simp add: scrape_def storm_headings_def process_headings_append empty_table_def Let_def)

subsection \<open>The fields of a row\<close>

lemma row_name: "name (hurricane_row U h) = heading_name U h"
  by (simp add: hurricane_row_def Let_def split: prod.split)

lemma row_dates:
  "date_start (hurricane_row U h) = fst (duration_dates U h)"
  "date_end (hurricane_row U h) = snd (duration_dates U h)"
  by (simp_all add: hurricane_row_def Let_def split: prod.split)

lemma row_death_count:
  "death_count (hurricane_row U h) =
     fst (olivia_override U (heading_name U h) (walk U (next_siblings h) (py ''0'', [])))"
  by (simp add: hurricane_row_def Let_def split: prod.split)

lemma row_affected_areas:
  "affected_areas (hurricane_row U h) =
     (let areas = snd (olivia_override U (heading_name U h)
                        (walk U (next_siblings h) (py ''0'', [])))
      in if areas \<noteq> [] then join (py ''; '') areas else py ''-'')"
  by (simp add: hurricane_row_def Let_def split: prod.split)

lemma not_olivia:
  "\<not> contains (py ''olivia'') (u_lower U nm) \<Longrightarrow> olivia_override U nm st = st"
  by (simp add: olivia_override_def)

subsection \<open>The loop over the siblings\<close>

lemma walk_fold:
  "walk U sibs st =
     foldl (\<lambda>st p. scan_paragraph U (paragraph_text U p) st) st (walk_paragraphs sibs)"
proof (induction sibs arbitrary: st)
  case Nil
  show ?case by (simp add: walk_paragraphs_def)
next
  case (Cons n sibs)
  show ?case
  proof (cases n)
    case (Str s)
    with Cons.IH show ?thesis by (simp add: walk_paragraphs_def stops_walk_def)
  next
    case (Other s)
    with Cons.IH show ?thesis by (simp add: walk_paragraphs_def stops_walk_def)
  next
    case (Tag nm cl cs)
    have ne: "py ''p'' \<noteq> py ''h3''" "py ''p'' \<noteq> py ''h4''"
      by (simp_all add: py_def)
    from Tag Cons.IH ne show ?thesis
      by (auto simp add: walk_paragraphs_def stops_walk_def)
  qed
qed

lemma scan_deaths:
  "fst (scan_paragraph U text st) =
     (case search U death_number_pattern text of
        Some death_match \<Rightarrow> match_group death_match 1
      | None \<Rightarrow> fst st)"
  by (simp add: scan_paragraph_def Let_def)

lemma fold_deaths:
  "fst (foldl (\<lambda>st p. scan_paragraph U (paragraph_text U p) st) st ps) =
     (case List.map_filter (\<lambda>p. search U death_number_pattern (paragraph_text U p)) ps of
        [] \<Rightarrow> fst st
      | m # ms \<Rightarrow> match_group (last (m # ms)) 1)"
proof (induction ps arbitrary: st)
  case Nil
  show ?case by (simp add: List.map_filter_simps)
next
  case (Cons p ps)
  show ?case
    by (simp add: Cons.IH List.map_filter_simps scan_deaths
        split: option.split list.split)
qed

lemma walk_deaths:
  "fst (walk U sibs st) =
     (case death_matches U sibs of [] \<Rightarrow> fst st | m # ms \<Rightarrow> match_group (last (m # ms)) 1)"
  by (simp add: walk_fold fold_deaths death_matches_def)

lemma map_filter_Nil: "(List.map_filter f xs = []) = (\<forall>x\<in>set xs. f x = None)"
  by (induction xs) (simp_all add: List.map_filter_simps split: option.split)

lemma death_matches_Nil:
  "(death_matches U sibs = []) =
     (\<forall>p\<in>set (walk_paragraphs sibs).
        search U death_number_pattern (paragraph_text U p) = None)"
  by (simp add: death_matches_def map_filter_Nil)

subsection \<open>The dates\<close>

lemma find_next_infobox_following:
  "find_next_infobox h = Some t \<Longrightarrow> t \<in> set (following_infoboxes h)"
  by (auto simp add: find_next_infobox_def following_infoboxes_def is_infobox_def find_Some_iff)

lemma duration_dates_placeholders:
  "find_next_infobox h = None \<Longrightarrow> duration_dates U h = (py ''-'', py ''-'')"
  "find_next_infobox h = Some t \<Longrightarrow> find_duration_row t = None \<Longrightarrow>
     duration_dates U h = (py ''-'', py ''-'')"
  by (simp_all add: duration_dates_def)

subsection \<open>The two examples of the specification, for any tables that agree on ASCII\<close>


lemma search_death_sentence:
  assumes "agrees_on_ascii U"
  shows "search U death_number_pattern death_sentence = Some [(1, py ''15'')]"
proof -
  have sp: "\<And>c. c < 128 \<Longrightarrow> u_isspace U c = ascii_isspace c"
    and dg: "\<And>c. c < 128 \<Longrightarrow> u_isdecimal U c = ascii_isdecimal c"
    and ie: "\<And>p c. c < 128 \<Longrightarrow> p < 128 \<Longrightarrow> u_ieq U p c = (ascii_tolower c = ascii_tolower p)"
    using assms by (simp_all add: agrees_on_ascii_def)
  show ?thesis
    by (simp add: death_sentence_def py_def pattern_simps sp dg ie
        ascii_tolower_def ascii_isdecimal_def ascii_isspace_def)
qed

subsection \<open>The example pages\<close>

lemma season_storms:
  "map (heading_name ascii) (storm_headings ascii season_page) =
     [py ''Tropical Storm Agatha'', py ''Hurricane Olivia'']"
  by (simp add: season_page_def script_simps page_simps ascii_simps)

lemma olivia_first:
  "heading_name ascii (first_storm olivia_page) = py ''Hurricane Olivia''"
  "next_siblings (first_storm olivia_page) =
     [duration_table august_range, Tag (py ''p'') [] [Str death_sentence]]"
  by (simp_all add: olivia_page_def script_simps page_simps ascii_simps)

lemma olivia_walk:
  "walk ascii (next_siblings (first_storm olivia_page)) (py ''0'', [])
     = (py ''15'', [py ''The'', py ''Sinaloa''])"
  by (simp add: olivia_first) (simp add: script_simps page_simps ascii_simps pattern_simps)

lemma olivia_is_olivia:
  "contains (py ''olivia'') (u_lower ascii (heading_name ascii (first_storm olivia_page)))"
  by (simp add: olivia_first) (simp add: py_def ascii_simps)

lemma olivia_dates:
  "duration_dates ascii (first_storm olivia_page) = (py ''August 12'', py ''August 18'')"
  by (simp add: olivia_page_def script_simps page_simps ascii_simps pattern_simps)


lemma katrina_facts:
  "\<not> contains (py ''olivia'') (u_lower ascii (heading_name ascii (first_storm katrina_page)))"
  "death_matches ascii (next_siblings (first_storm katrina_page))
     = [[(1, py ''15'')], [(1, py ''21'')]]"
  by (simp_all add: katrina_page_def script_simps page_simps ascii_simps pattern_simps
      List.map_filter_simps)

lemma sinaloa_facts:
  "\<not> contains (py ''olivia'') (u_lower ascii (heading_name ascii (first_storm sinaloa_page)))"
  "map (paragraph_text ascii) (walk_paragraphs (next_siblings (first_storm sinaloa_page)))
     = [death_sentence]"
  by (simp_all add: sinaloa_page_def script_simps page_simps ascii_simps)

lemma quiet_walk:
  "map (paragraph_text ascii) (walk_paragraphs (next_siblings (first_storm quiet_page)))
    = [py ''Agatha stayed at sea.'']"
  "map (\<lambda>p. search ascii death_number_pattern (paragraph_text ascii p))
     (walk_paragraphs (next_siblings (first_storm quiet_page))) = [None]"
  "\<not> contains (py ''olivia'') (u_lower ascii (heading_name ascii (first_storm quiet_page)))"
  by (simp_all add: quiet_page_def script_simps page_simps ascii_simps pattern_simps)

section \<open>The properties\<close>

text \<open>
  C1. For every page, the headings that pass the filter of the loop (the \<open>h3\<close> tags
  whose text, the edit marker taken out, contains \<open>hurricane\<close> or \<open>storm\<close> in
  lower case) give one row each: the five lists of the script are the fields of the rows
  of those headings, in the order of the headings in the document, and each list is as
  long as there are such headings.
\<close>

theorem scrape_one_row_per_storm_heading:
  "hurricane_names (scrape U page)
     = map (\<lambda>h. name (hurricane_row U h)) (storm_headings U page)
   \<and> start_dates (scrape U page)
     = map (\<lambda>h. date_start (hurricane_row U h)) (storm_headings U page)
   \<and> end_dates (scrape U page)
     = map (\<lambda>h. date_end (hurricane_row U h)) (storm_headings U page)
   \<and> deaths (scrape U page)
     = map (\<lambda>h. death_count (hurricane_row U h)) (storm_headings U page)
   \<and> areas_affected (scrape U page)
     = map (\<lambda>h. affected_areas (hurricane_row U h)) (storm_headings U page)
   \<and> length (hurricane_names (scrape U page)) = length (storm_headings U page)
   \<and> length (start_dates (scrape U page)) = length (storm_headings U page)
   \<and> length (end_dates (scrape U page)) = length (storm_headings U page)
   \<and> length (deaths (scrape U page)) = length (storm_headings U page)
   \<and> length (areas_affected (scrape U page)) = length (storm_headings U page)"
  by (simp add: scrape_rows)

theorem scrape_one_row_per_storm_heading_witness:
  "map (heading_name ascii) (find_all (extract_sup season_page) (py ''h3''))
     = [py ''Tropical Storm Agatha'', py ''Hurricane Olivia'', py ''See also'']
   \<and> length (storm_headings ascii season_page) = 2
   \<and> hurricane_names (scrape ascii season_page)
       = [py ''Tropical Storm Agatha'', py ''Hurricane Olivia'']
   \<and> length (start_dates (scrape ascii season_page)) = 2
   \<and> length (end_dates (scrape ascii season_page)) = 2
   \<and> length (deaths (scrape ascii season_page)) = 2
   \<and> length (areas_affected (scrape ascii season_page)) = 2"
proof -
  have a: "map (heading_name ascii) (find_all (extract_sup season_page) (py ''h3''))
     = [py ''Tropical Storm Agatha'', py ''Hurricane Olivia'', py ''See also'']"
    by (simp add: season_page_def script_simps page_simps ascii_simps)
  have b: "length (storm_headings ascii season_page) = 2"
    using season_storms by (metis length_map length_Cons list.size(3) numeral_2_eq_2)
  have c: "map (\<lambda>h. name (hurricane_row ascii h)) (storm_headings ascii season_page)
      = [py ''Tropical Storm Agatha'', py ''Hurricane Olivia'']"
    using season_storms by (simp add: row_name)
  show ?thesis
    using scrape_one_row_per_storm_heading [of ascii season_page] a b c by simp
qed

text \<open>
  C2, as the script has it. For a heading whose name does not contain \<open>olivia\<close>:
  when no paragraph that the loop over the siblings reaches matches the death pattern,
  the death count of the row is \<open>"0"\<close>, the value the script starts from. It is not
  the placeholder \<open>"-"\<close> of the dates and the areas.
\<close>

theorem no_death_cue_gives_zero:
  assumes "\<forall>p\<in>set (walk_paragraphs (next_siblings h)).
             search U death_number_pattern (paragraph_text U p) = None"
    and "\<not> contains (py ''olivia'') (u_lower U (heading_name U h))"
  shows "death_count (hurricane_row U h) = py ''0''"
proof -
  have "death_matches U (next_siblings h) = []"
    using assms(1) by (simp add: death_matches_Nil)
  then show ?thesis
    using assms(2) by (simp add: row_death_count not_olivia walk_deaths)
qed

theorem no_death_cue_gives_zero_witness:
  "map (\<lambda>p. search ascii death_number_pattern (paragraph_text ascii p))
     (walk_paragraphs (next_siblings (first_storm quiet_page))) = [None]
   \<and> \<not> contains (py ''olivia'') (u_lower ascii (heading_name ascii (first_storm quiet_page)))
   \<and> death_count (hurricane_row ascii (first_storm quiet_page)) = py ''0''"
proof -
  have a: "\<forall>p\<in>set (walk_paragraphs (next_siblings (first_storm quiet_page))).
             search ascii death_number_pattern (paragraph_text ascii p) = None"
    using quiet_walk(2) by (metis (mono_tags, lifting) in_set_conv_nth length_map nth_map
        length_Cons list.size(3) less_Suc0 nth_Cons_0 One_nat_def)
  show ?thesis
    using no_death_cue_gives_zero [OF a quiet_walk(3)] quiet_walk(2,3) by simp
qed

text \<open>
  C2 as the claim states it fails on \<open>quiet_page\<close>: the one paragraph after the
  heading does not match the death pattern, and the death count of the row is
  \<open>"0"\<close>, not \<open>"-"\<close>.
\<close>

theorem no_death_cue_placeholder_counterexample:
  "map (\<lambda>p. search ascii death_number_pattern (paragraph_text ascii p))
     (walk_paragraphs (next_siblings (first_storm quiet_page))) = [None]
   \<and> death_count (hurricane_row ascii (first_storm quiet_page)) = py ''0''
   \<and> deaths (scrape ascii quiet_page) = [py ''0'']
   \<and> py ''0'' \<noteq> py ''-''"
  by (simp add: quiet_page_def script_simps page_simps ascii_simps pattern_simps)

text \<open>
  C3 does not hold of the script. On \<open>season_page\<close> the Section of Tropical Storm
  Agatha has no infobox of its own: none stands between its heading and the next
  \<open>h3\<close>, where the loop over the siblings of the same heading stops. But
  \<open>find_next\<close> goes on through the rest of the page, and the row of Agatha has the
  dates of the infobox of Hurricane Olivia, not \<open>"-"\<close>.
\<close>

theorem no_own_infobox_takes_dates_of_next_section:
  "name (hurricane_row ascii (first_storm season_page)) = py ''Tropical Storm Agatha''
   \<and> filter is_infobox (section_content (first_storm season_page)) = []
   \<and> walk_paragraphs (next_siblings (first_storm season_page))
       = [Tag (py ''p'') [] [Str (py ''Agatha stayed at sea. '')]]
   \<and> find_next_infobox (first_storm season_page) = Some (duration_table august_range)
   \<and> date_start (hurricane_row ascii (first_storm season_page)) = py ''August 12''
   \<and> date_end (hurricane_row ascii (first_storm season_page)) = py ''August 18''
   \<and> py ''August 12'' \<noteq> py ''-''
   \<and> py ''August 18'' \<noteq> py ''-''
   \<and> start_dates (scrape ascii season_page) = [py ''August 12'', py ''August 12'']
   \<and> end_dates (scrape ascii season_page) = [py ''August 18'', py ''August 18'']"
  by (simp add: season_page_def script_simps page_simps ascii_simps pattern_simps)




text \<open>
  C5, as the script has it. For a heading whose name does not contain \<open>olivia\<close>:
  when paragraphs that the loop over the siblings reaches match the death pattern, the
  death count of the row is group 1 of the match in the last of them; and when the
  loop reaches the one paragraph \<open>The storm killed 15 people in Sinaloa.\<close>, the death
  count is \<open>"15"\<close>.
\<close>

theorem last_death_match_wins:
  assumes "\<not> contains (py ''olivia'') (u_lower U (heading_name U h))"
  shows "(death_matches U (next_siblings h) \<noteq> [] \<longrightarrow>
            death_count (hurricane_row U h)
              = match_group (last (death_matches U (next_siblings h))) 1)
    \<and> (agrees_on_ascii U
          \<and> map (paragraph_text U) (walk_paragraphs (next_siblings h)) = [death_sentence] \<longrightarrow>
            death_count (hurricane_row U h) = py ''15'')"
proof (intro conjI impI)
  assume "death_matches U (next_siblings h) \<noteq> []"
  then show "death_count (hurricane_row U h)
      = match_group (last (death_matches U (next_siblings h))) 1"
    using assms by (simp add: row_death_count not_olivia walk_deaths split: list.split)
next
  assume a: "agrees_on_ascii U
    \<and> map (paragraph_text U) (walk_paragraphs (next_siblings h)) = [death_sentence]"
  then obtain p where p: "walk_paragraphs (next_siblings h) = [p]"
    "paragraph_text U p = death_sentence"
    by auto
  have "death_matches U (next_siblings h) = [[(1, py ''15'')]]"
    using a p search_death_sentence [of U]
    by (simp add: death_matches_def List.map_filter_simps)
  then show "death_count (hurricane_row U h) = py ''15''"
    using assms by (simp add: row_death_count not_olivia walk_deaths match_group_def)
qed

theorem last_death_match_wins_witness:
  "\<not> contains (py ''olivia'') (u_lower ascii (heading_name ascii (first_storm katrina_page)))
   \<and> death_matches ascii (next_siblings (first_storm katrina_page))
       = [[(1, py ''15'')], [(1, py ''21'')]]
   \<and> death_count (hurricane_row ascii (first_storm katrina_page)) = py ''21''
   \<and> \<not> contains (py ''olivia'') (u_lower ascii (heading_name ascii (first_storm sinaloa_page)))
   \<and> agrees_on_ascii ascii
   \<and> map (paragraph_text ascii) (walk_paragraphs (next_siblings (first_storm sinaloa_page)))
       = [death_sentence]
   \<and> death_count (hurricane_row ascii (first_storm sinaloa_page)) = py ''15''"
  using last_death_match_wins [OF katrina_facts(1)] last_death_match_wins [OF sinaloa_facts(1)]
    katrina_facts sinaloa_facts agrees_on_ascii_ascii
  by (simp add: match_group_def)

text \<open>
  C5 as the claim states it fails on \<open>olivia_page\<close>: the one paragraph of the Section
  is the example's, its match is \<open>"15"\<close>, and the death count of the row is
  \<open>"30"\<close>.
\<close>

theorem last_death_match_wins_counterexample:
  "map (paragraph_text ascii) (walk_paragraphs (next_siblings (first_storm olivia_page)))
     = [death_sentence]
   \<and> death_matches ascii (next_siblings (first_storm olivia_page)) = [[(1, py ''15'')]]
   \<and> death_count (hurricane_row ascii (first_storm olivia_page)) = py ''30''
   \<and> py ''30'' \<noteq> py ''15''"
  by (simp add: olivia_page_def script_simps page_simps ascii_simps pattern_simps
      List.map_filter_simps)

text \<open>
  C6. For a heading whose name contains \<open>olivia\<close> in lower case, the override gives
  \<open>"30"\<close> and the one area \<open>Sinaloa, Mexico\<close> whatever the loop over the siblings
  found (\<open>st\<close>), and the row has the death count \<open>"30"\<close> and the areas
  \<open>"Sinaloa, Mexico"\<close>.
\<close>

theorem olivia_override_forces_deaths_and_areas:
  assumes "contains (py ''olivia'') (u_lower U (heading_name U h))"
  shows "olivia_override U (heading_name U h) st = (py ''30'', [py ''Sinaloa, Mexico''])
    \<and> death_count (hurricane_row U h) = py ''30''
    \<and> affected_areas (hurricane_row U h) = py ''Sinaloa, Mexico''"
  using assms by (simp add: row_death_count row_affected_areas olivia_override_def)

theorem olivia_override_forces_deaths_and_areas_witness:
  "contains (py ''olivia'') (u_lower ascii (heading_name ascii (first_storm olivia_page)))
   \<and> walk ascii (next_siblings (first_storm olivia_page)) (py ''0'', [])
       = (py ''15'', [py ''The'', py ''Sinaloa''])
   \<and> death_count (hurricane_row ascii (first_storm olivia_page)) = py ''30''
   \<and> affected_areas (hurricane_row ascii (first_storm olivia_page)) = py ''Sinaloa, Mexico''"
  using olivia_override_forces_deaths_and_areas [OF olivia_is_olivia] olivia_is_olivia olivia_walk
  by simp




text \<open>
  C8. The keyword test of \<open>extract_affected_areas\<close> looks at the whole text, not at
  the match: when a keyword occurs in the lowered text the filter keeps every match of
  the proper-noun pattern, and when none occurs the filter keeps nothing and the
  function falls back to every match.
\<close>

theorem keyword_test_is_paragraph_scoped:
  "(has_keyword U s \<longrightarrow>
      relevant_locations U s = findall U location_pattern s
      \<and> extract_affected_areas U s = findall U location_pattern s)
   \<and> (\<not> has_keyword U s \<longrightarrow>
      relevant_locations U s = []
      \<and> extract_affected_areas U s = findall U location_pattern s)"
  by (simp add: extract_affected_areas_def relevant_locations_def Let_def)

theorem keyword_test_is_paragraph_scoped_witness:
  "has_keyword ascii (py ''Mexico was hit. Later Hawaii saw rain'')
   \<and> relevant_locations ascii (py ''Mexico was hit. Later Hawaii saw rain'')
       = [py ''Mexico'', py ''Later Hawaii'']
   \<and> extract_affected_areas ascii (py ''Mexico was hit. Later Hawaii saw rain'')
       = [py ''Mexico'', py ''Later Hawaii'']
   \<and> \<not> has_keyword ascii (py ''Agatha stayed west of Baja California'')
   \<and> relevant_locations ascii (py ''Agatha stayed west of Baja California'') = []
   \<and> extract_affected_areas ascii (py ''Agatha stayed west of Baja California'')
       = [py ''Agatha'', py ''Baja California'']"
proof -
  have k1: "has_keyword ascii (py ''Mexico was hit. Later Hawaii saw rain'')"
    by (simp add: has_keyword_def affected_keywords_def py_def ascii_simps)
  have k2: "\<not> has_keyword ascii (py ''Agatha stayed west of Baja California'')"
    by (simp add: has_keyword_def affected_keywords_def py_def ascii_simps)
  have f1: "findall ascii location_pattern (py ''Mexico was hit. Later Hawaii saw rain'')
      = [py ''Mexico'', py ''Later Hawaii'']"
    by (simp add: py_def pattern_simps)
  have f2: "findall ascii location_pattern (py ''Agatha stayed west of Baja California'')
      = [py ''Agatha'', py ''Baja California'']"
    by (simp add: py_def pattern_simps)
  show ?thesis
    using keyword_test_is_paragraph_scoped [of ascii "py ''Mexico was hit. Later Hawaii saw rain''"]
      keyword_test_is_paragraph_scoped [of ascii "py ''Agatha stayed west of Baja California''"]
      k1 k2 f1 f2 by simp
qed

text \<open>
  C9. \<open>extract_affected_areas\<close> is the plain proper-noun matcher: for every text it
  returns all the matches of the pattern, in order; the keyword gate changes nothing.
\<close>

theorem extract_affected_areas_is_proper_nouns:
  "extract_affected_areas = proper_nouns"
proof (intro ext)
  fix U s
  show "extract_affected_areas U s = proper_nouns U s"
    by (cases "has_keyword U s")
      (simp_all add: extract_affected_areas_def relevant_locations_def proper_nouns_def Let_def)
qed

theorem extract_affected_areas_is_proper_nouns_witness:
  "extract_affected_areas ascii (py ''Olivia made landfall near Mazatlan in Sinaloa'')
     = [py ''Olivia'', py ''Mazatlan'', py ''Sinaloa'']
   \<and> extract_affected_areas ascii (py ''Agatha stayed west of Baja California'')
     = [py ''Agatha'', py ''Baja California'']"
  using fun_cong [OF fun_cong [OF extract_affected_areas_is_proper_nouns], of ascii
      "py ''Olivia made landfall near Mazatlan in Sinaloa''"]
    fun_cong [OF fun_cong [OF extract_affected_areas_is_proper_nouns], of ascii
      "py ''Agatha stayed west of Baja California''"]
  by (simp add: proper_nouns_def py_def pattern_simps)

text \<open>
  C10. For a heading whose name contains \<open>olivia\<close> in lower case, the row keeps the
  name of the heading and the two dates of the date extraction: the override touches
  the death count and the areas only.
\<close>

theorem olivia_override_keeps_name_and_dates:
  assumes "contains (py ''olivia'') (u_lower U (heading_name U h))"
  shows "name (hurricane_row U h) = heading_name U h
    \<and> date_start (hurricane_row U h) = fst (duration_dates U h)
    \<and> date_end (hurricane_row U h) = snd (duration_dates U h)"
  by (simp add: row_name row_dates)

theorem olivia_override_keeps_name_and_dates_witness:
  "contains (py ''olivia'') (u_lower ascii (heading_name ascii (first_storm olivia_page)))
   \<and> name (hurricane_row ascii (first_storm olivia_page)) = py ''Hurricane Olivia''
   \<and> date_start (hurricane_row ascii (first_storm olivia_page)) = py ''August 12''
   \<and> date_end (hurricane_row ascii (first_storm olivia_page)) = py ''August 18''"
  using olivia_override_keeps_name_and_dates [OF olivia_is_olivia] olivia_is_olivia
    olivia_first(1) olivia_dates
  by simp

end
